theory Spec2Isabelle
  imports Complex_Main
begin

section \<open>Numbers, strings and the page constants\<close>

text \<open>
  The sheet generator of \<^verbatim>\<open>src/App.tsx\<close> computes with JavaScript numbers. They are
  modelled as exact rationals: every product, sum and quotient below is the mathematical
  one, and the rounding of IEEE doubles is outside the model, except for the two page
  constants, which are also computed in double precision further down. Strings are lists
  of characters.
\<close>

type_synonym number = rat

definition A4_WIDTH_INCHES :: number where
  "A4_WIDTH_INCHES = 8.27"

definition A4_HEIGHT_INCHES :: number where
  "A4_HEIGHT_INCHES = 11.69"

definition DPI :: number where
  "DPI = 300"

definition A4_WIDTH_PX :: number where
  "A4_WIDTH_PX = A4_WIDTH_INCHES * DPI"

definition A4_HEIGHT_PX :: number where
  "A4_HEIGHT_PX = A4_HEIGHT_INCHES * DPI"

text \<open>
  \<^verbatim>\<open>String.prototype.toLowerCase\<close>, \<^verbatim>\<open>endsWith\<close>, \<^verbatim>\<open>startsWith\<close>, \<^verbatim>\<open>trim\<close> and
  \<^verbatim>\<open>substring(0, n)\<close> on ASCII text: the letters A to Z are lowered, and white space is
  the space, the tab, the line feed, the vertical tab, the form feed and the carriage
  return.
\<close>

definition lower_char :: "char \<Rightarrow> char" where
  "lower_char c =
     (let n = (of_char c :: nat) in if 65 \<le> n \<and> n \<le> 90 then char_of (n + 32) else c)"

definition toLowerCase :: "string \<Rightarrow> string" where
  "toLowerCase s = map lower_char s"

definition endsWith :: "string \<Rightarrow> string \<Rightarrow> bool" where
  "endsWith s suf = (length suf \<le> length s \<and> drop (length s - length suf) s = suf)"

definition startsWith :: "string \<Rightarrow> string \<Rightarrow> bool" where
  "startsWith s pre = (take (length pre) s = pre)"

definition isWhiteSpace :: "char \<Rightarrow> bool" where
  "isWhiteSpace c = ((of_char c :: nat) \<in> {32, 9, 10, 11, 12, 13})"

definition trim :: "string \<Rightarrow> string" where
  "trim s = rev (dropWhile isWhiteSpace (rev (dropWhile isWhiteSpace s)))"

definition substring0 :: "nat \<Rightarrow> string \<Rightarrow> string" where
  "substring0 n s = take n s"

section \<open>The groups\<close>

datatype ValidationStatus = idle | "checking" | valid | invalid

text \<open>
  The interface \<^verbatim>\<open>BarcodeGroup\<close>. The field \<^verbatim>\<open>id\<close> is called \<open>id_g\<close> here. The two
  counts are numbers in the source, so they are numbers here; the form only ever stores
  non-negative whole numbers in them.
\<close>

record BarcodeGroup =
  id_g :: number
  inputValue :: string
  resolvedUrl :: string
  validationStatus :: ValidationStatus
  title :: string
  horizontalCount :: number
  verticalCount :: number
  marginTop :: number

section \<open>The canvas\<close>

text \<open>
  A canvas is modelled by what the code can observe and change: whether a 2D context can
  be obtained, the layout box (\<^verbatim>\<open>offsetWidth\<close>, \<^verbatim>\<open>offsetHeight\<close>), the size of the
  backing store, the drawing state of the context (only scalings are ever applied, so the
  transformation is a pair of scale factors), the stack of \<^verbatim>\<open>save\<close>, and the list of
  everything painted since the backing store was last resized, oldest first. Each painted
  entry keeps the transformation that was in force when it was painted, and its
  coordinates are the ones the code passed.
\<close>

datatype font = Font bool number string

datatype command =
    FillRect string number number number number
  | FillText string font string string number number
  | DrawImage string number number number number

type_synonym paint = "(number \<times> number) \<times> command"

record ctx_state =
  transform :: "number \<times> number"
  fillStyle :: string
  font :: font
  textAlign :: string

record canvas =
  has_context :: bool
  offsetWidth :: int
  offsetHeight :: int
  width :: nat
  height :: nat
  state :: ctx_state
  saved :: "ctx_state list"
  painted :: "paint list"

definition default_state :: ctx_state where
  "default_state =
     \<lparr>transform = (1, 1), fillStyle = ''#000000'', font = Font False 10 ''sans-serif'',
      textAlign = ''start''\<rparr>"

text \<open>
  Assigning \<^verbatim>\<open>canvas.width\<close> or \<^verbatim>\<open>canvas.height\<close> converts the number to an unsigned
  integer by truncation, clears the backing store and resets the context.
\<close>

definition to_unsigned_long :: "number \<Rightarrow> nat" where
  "to_unsigned_long v = nat \<lfloor>v\<rfloor>"

definition set_width :: "number \<Rightarrow> canvas \<Rightarrow> canvas" where
  "set_width v c =
     c\<lparr>width := to_unsigned_long v, state := default_state, saved := [], painted := []\<rparr>"

definition set_height :: "number \<Rightarrow> canvas \<Rightarrow> canvas" where
  "set_height v c =
     c\<lparr>height := to_unsigned_long v, state := default_state, saved := [], painted := []\<rparr>"

definition scale :: "number \<Rightarrow> number \<Rightarrow> canvas \<Rightarrow> canvas" where
  "scale x y c =
     c\<lparr>state := (state c)\<lparr>transform :=
        (fst (transform (state c)) * x, snd (transform (state c)) * y)\<rparr>\<rparr>"

definition save :: "canvas \<Rightarrow> canvas" where
  "save c = c\<lparr>saved := state c # saved c\<rparr>"

definition restore :: "canvas \<Rightarrow> canvas" where
  "restore c = (case saved c of [] \<Rightarrow> c | s # ss \<Rightarrow> c\<lparr>state := s, saved := ss\<rparr>)"

definition set_fillStyle :: "string \<Rightarrow> canvas \<Rightarrow> canvas" where
  "set_fillStyle s c = c\<lparr>state := (state c)\<lparr>fillStyle := s\<rparr>\<rparr>"

definition set_font :: "font \<Rightarrow> canvas \<Rightarrow> canvas" where
  "set_font f c = c\<lparr>state := (state c)\<lparr>font := f\<rparr>\<rparr>"

definition set_textAlign :: "string \<Rightarrow> canvas \<Rightarrow> canvas" where
  "set_textAlign a c = c\<lparr>state := (state c)\<lparr>textAlign := a\<rparr>\<rparr>"

definition fillRect :: "number \<Rightarrow> number \<Rightarrow> number \<Rightarrow> number \<Rightarrow> canvas \<Rightarrow> canvas" where
  "fillRect x y w h c =
     c\<lparr>painted := painted c @
        [(transform (state c), FillRect (fillStyle (state c)) x y w h)]\<rparr>"

definition fillText :: "string \<Rightarrow> number \<Rightarrow> number \<Rightarrow> canvas \<Rightarrow> canvas" where
  "fillText text x y c =
     c\<lparr>painted := painted c @
        [(transform (state c),
          FillText text (font (state c)) (fillStyle (state c)) (textAlign (state c)) x y)]\<rparr>"

definition drawImage ::
  "string \<Rightarrow> number \<Rightarrow> number \<Rightarrow> number \<Rightarrow> number \<Rightarrow> canvas \<Rightarrow> canvas" where
  "drawImage img x y w h c =
     c\<lparr>painted := painted c @ [(transform (state c), DrawImage img x y w h)]\<rparr>"

section \<open>Drawing the groups: \<^verbatim>\<open>drawContent\<close>\<close>

text \<open>
  Loading an image is the browser's work: the loader is a parameter that gives, for a
  URL, the natural width and height of the decoded image, or \<open>None\<close> when the
  \<^verbatim>\<open>onerror\<close> handler fires. An image is identified by its URL.
\<close>

type_synonym loader = "string \<Rightarrow> (nat \<times> nat) option"

text \<open>The three errors thrown inside \<^verbatim>\<open>drawContent\<close>, and their messages.\<close>

datatype render_error = LoadFailed string | ZeroDimensions string | Overflow

fun message :: "render_error \<Rightarrow> string" where
  "message (LoadFailed url) = ''Failed to load: '' @ substring0 50 url @ ''...''"
| "message (ZeroDimensions url) =
     ''Image from '' @ substring0 50 url @ ''... has zero dimensions.''"
| "message Overflow = ''Content overflows A4 page. Reduce counts or adjust margins.''"

text \<open>
  Lines 150 to 157: the width and height of one cell, from the natural size of the image
  and the URL.
\<close>

definition cellSize :: "string \<Rightarrow> nat \<times> nat \<Rightarrow> number \<times> number" where
  "cellSize url natural =
     (let barcodeWidth = of_nat (fst natural);
          barcodeHeight = of_nat (snd natural)
      in if endsWith (toLowerCase url) ''.svg''
         then (let assumedBrowserDpi = 96;
                   scaleFactor = DPI / assumedBrowserDpi
               in (barcodeWidth * scaleFactor, barcodeHeight * scaleFactor))
         else (barcodeWidth, barcodeHeight))"

text \<open>
  The values a counting loop \<^verbatim>\<open>for (let i = 0; i < n; i++)\<close> runs through, for a
  number \<open>n\<close>.
\<close>

definition loop_range :: "number \<Rightarrow> nat list" where
  "loop_range n = [0..<nat \<lceil>n\<rceil>]"

text \<open>Lines 173 to 179: the two nested loops that draw the cells of one group.\<close>

definition drawGrid ::
  "string \<Rightarrow> number \<Rightarrow> number \<Rightarrow> number \<Rightarrow> number \<Rightarrow> number \<Rightarrow> number \<Rightarrow> canvas \<Rightarrow> canvas"
  where
  "drawGrid img startX startY barcodeWidth barcodeHeight hCount vCount ctx =
     foldl (\<lambda>c y.
        foldl (\<lambda>c x.
           (let drawX = startX + of_nat x * barcodeWidth;
                drawY = startY + of_nat y * barcodeHeight
            in drawImage img drawX drawY barcodeWidth barcodeHeight c))
          c (loop_range hCount))
       ctx (loop_range vCount)"

text \<open>Lines 130 to 140: the title of a group, and the offset after it.\<close>

definition fontSizePx :: number where
  "fontSizePx = (16 / 72) * DPI"

definition hasTitle :: "BarcodeGroup \<Rightarrow> bool" where
  "hasTitle grp = (title grp \<noteq> [] \<and> trim (title grp) \<noteq> [])"

definition drawTitle :: "BarcodeGroup \<Rightarrow> number \<times> canvas \<Rightarrow> number \<times> canvas" where
  "drawTitle grp s =
     (let currentYOffset = fst s; ctx = snd s
      in if hasTitle grp
         then (let ctx = set_font (Font True fontSizePx ''sans-serif'') ctx;
                   ctx = set_fillStyle ''black'' ctx;
                   ctx = set_textAlign ''center'' ctx;
                   textX = A4_WIDTH_PX / 2;
                   textY = currentYOffset + fontSizePx;
                   ctx = fillText (title grp) textX textY ctx
               in (currentYOffset + (fontSizePx + (fontSizePx * 0.5)), ctx))
         else (currentYOffset, ctx))"

text \<open>
  One turn of the loop over the valid groups (lines 127 to 182). A thrown error leaves
  the loop with the canvas as it is at that moment.
\<close>

definition drawGroup ::
  "loader \<Rightarrow> BarcodeGroup \<Rightarrow> number \<times> canvas \<Rightarrow> render_error \<times> canvas + number \<times> canvas"
  where
  "drawGroup load grp s =
     (let s1 = drawTitle grp (fst s + marginTop grp * DPI, snd s);
          currentYOffset = fst s1; ctx = snd s1
      in case load (resolvedUrl grp) of
           None \<Rightarrow> Inl (LoadFailed (resolvedUrl grp), ctx)
         | Some natural \<Rightarrow>
            (let barcodeWidth = fst (cellSize (resolvedUrl grp) natural);
                 barcodeHeight = snd (cellSize (resolvedUrl grp) natural)
             in if barcodeWidth = 0 \<or> barcodeHeight = 0
                then Inl (ZeroDimensions (resolvedUrl grp), ctx)
                else (let groupGridWidth = horizontalCount grp * barcodeWidth;
                          groupGridHeight = verticalCount grp * barcodeHeight
                      in if currentYOffset + groupGridHeight > A4_HEIGHT_PX
                         then Inl (Overflow, ctx)
                         else (let startX = (A4_WIDTH_PX - groupGridWidth) / 2;
                                   startY = currentYOffset
                               in Inr (currentYOffset + groupGridHeight,
                                       drawGrid (resolvedUrl grp) startX startY
                                         barcodeWidth barcodeHeight
                                         (horizontalCount grp) (verticalCount grp)
                                         ctx)))))"

fun drawGroups ::
  "loader \<Rightarrow> BarcodeGroup list \<Rightarrow> number \<times> canvas \<Rightarrow> render_error \<times> canvas + number \<times> canvas"
  where
  "drawGroups load [] s = Inr s"
| "drawGroups load (grp # rest) s =
     (case drawGroup load grp s of
        Inl e \<Rightarrow> Inl e
      | Inr s' \<Rightarrow> drawGroups load rest s')"

definition drawContent ::
  "loader \<Rightarrow> BarcodeGroup list \<Rightarrow> canvas \<Rightarrow> render_error \<times> canvas + number \<times> canvas" where
  "drawContent load validGroups ctx = drawGroups load validGroups (0, ctx)"

section \<open>A render pass: \<^verbatim>\<open>drawOnCanvas\<close>\<close>

text \<open>
  The groups that are drawn (line 121), and the whole pass (lines 101 to 203). The pass
  takes the device pixel ratio of the window, the loader, the canvas, the groups, the
  mode and the error message now shown; it returns the canvas and the error message
  shown afterwards.
\<close>

definition contributes :: "BarcodeGroup \<Rightarrow> bool" where
  "contributes g =
     (resolvedUrl g \<noteq> [] \<and> validationStatus g = valid \<and> horizontalCount g > 0
      \<and> verticalCount g > 0)"

definition drawOnCanvas ::
  "number \<Rightarrow> loader \<Rightarrow> canvas \<Rightarrow> BarcodeGroup list \<Rightarrow> bool \<Rightarrow> string option
     \<Rightarrow> canvas \<times> string option" where
  "drawOnCanvas devicePixelRatio load canvas groups isPreview error =
     (if \<not> has_context canvas then (canvas, error)
      else
       (let logicalCanvasWidth = (if isPreview then of_int (offsetWidth canvas) else A4_WIDTH_PX);
            logicalCanvasHeight =
              (if isPreview then of_int (offsetHeight canvas) else A4_HEIGHT_PX);
            ctx = (if isPreview
                   then (let dpr = (if devicePixelRatio = 0 then 1 else devicePixelRatio)
                         in scale dpr dpr
                              (set_height (logicalCanvasHeight * dpr)
                                 (set_width (logicalCanvasWidth * dpr) canvas)))
                   else set_height A4_HEIGHT_PX (set_width A4_WIDTH_PX canvas));
            ctx = fillRect 0 0 logicalCanvasWidth logicalCanvasHeight
                    (set_fillStyle ''white'' ctx);
            validGroups = filter contributes groups
        in if validGroups = [] then (ctx, error)
           else
            (case (if isPreview
                   then (let scaleToFit = min (logicalCanvasWidth / A4_WIDTH_PX)
                                              (logicalCanvasHeight / A4_HEIGHT_PX)
                         in case drawContent load validGroups
                                   (scale scaleToFit scaleToFit (save ctx)) of
                              Inl e \<Rightarrow> Inl e
                            | Inr s \<Rightarrow> Inr (fst s, restore (snd s)))
                   else drawContent load validGroups ctx) of
               Inr s \<Rightarrow> (snd s, None)
             | Inl e \<Rightarrow>
                 (fillRect 0 0 logicalCanvasWidth logicalCanvasHeight
                    (set_fillStyle ''rgba(255, 0, 0, 0.1)'' (snd e)),
                  Some (message (fst e))))))"

text \<open>Line 267: whether the download button is disabled.\<close>

definition isDownloadDisabled :: "bool \<Rightarrow> BarcodeGroup list \<Rightarrow> bool" where
  "isDownloadDisabled isLoading barcodeGroups =
     (isLoading \<or> length barcodeGroups = 0
      \<or> list_ex (\<lambda>g. validationStatus g \<noteq> valid \<or> resolvedUrl g = []
                      \<or> horizontalCount g \<le> 0 \<or> verticalCount g \<le> 0) barcodeGroups)"

text \<open>
  Lines 245 to 249: the export creates a canvas of its own, clears the error message and
  runs one pass that is not a preview. A canvas just created has the default size and
  gives a 2D context.
\<close>

definition createCanvas :: canvas where
  "createCanvas =
     \<lparr>has_context = True, offsetWidth = 0, offsetHeight = 0, width = 300, height = 150,
      state = default_state, saved = [], painted = []\<rparr>"

definition handleGenerateAndDownload ::
  "number \<Rightarrow> loader \<Rightarrow> BarcodeGroup list \<Rightarrow> canvas \<times> string option" where
  "handleGenerateAndDownload devicePixelRatio load barcodeGroups =
     drawOnCanvas devicePixelRatio load createCanvas barcodeGroups False None"

text \<open>The canvas a run of the drawing loop leaves, whether it threw or not.\<close>

definition canvas_of :: "render_error \<times> canvas + number \<times> canvas \<Rightarrow> canvas" where
  "canvas_of r = (case r of Inl e \<Rightarrow> snd e | Inr s \<Rightarrow> snd s)"

text \<open>
  The canvas on which \<^verbatim>\<open>drawContent\<close> starts in a pass (lines 105 to 119, and lines
  187 to 189 for a preview): resized, filled white and, for a preview, saved and scaled
  to fit. The pair \<open>logicalSize\<close> is \<^verbatim>\<open>logicalCanvasWidth\<close> and \<^verbatim>\<open>logicalCanvasHeight\<close>.
  These three definitions name parts of \<open>drawOnCanvas\<close>; the lemmas
  \<open>drawOnCanvas_nothing_to_draw\<close>, \<open>drawOnCanvas_drawn\<close> and \<open>drawOnCanvas_thrown\<close> show
  that \<open>drawOnCanvas\<close> is made of them.
\<close>

definition logicalSize :: "canvas \<Rightarrow> bool \<Rightarrow> number \<times> number" where
  "logicalSize canvas isPreview =
     (if isPreview then (of_int (offsetWidth canvas), of_int (offsetHeight canvas))
      else (A4_WIDTH_PX, A4_HEIGHT_PX))"

definition background :: "number \<Rightarrow> canvas \<Rightarrow> bool \<Rightarrow> canvas" where
  "background devicePixelRatio canvas isPreview =
     (let lw = fst (logicalSize canvas isPreview); lh = snd (logicalSize canvas isPreview);
          ctx = (if isPreview
                 then (let dpr = (if devicePixelRatio = 0 then 1 else devicePixelRatio)
                       in scale dpr dpr (set_height (lh * dpr) (set_width (lw * dpr) canvas)))
                 else set_height A4_HEIGHT_PX (set_width A4_WIDTH_PX canvas))
      in fillRect 0 0 lw lh (set_fillStyle ''white'' ctx))"

definition content_canvas :: "number \<Rightarrow> canvas \<Rightarrow> bool \<Rightarrow> canvas" where
  "content_canvas devicePixelRatio canvas isPreview =
     (let lw = fst (logicalSize canvas isPreview); lh = snd (logicalSize canvas isPreview);
          ctx = background devicePixelRatio canvas isPreview
      in if isPreview
         then (let scaleToFit = min (lw / A4_WIDTH_PX) (lh / A4_HEIGHT_PX)
               in scale scaleToFit scaleToFit (save ctx))
         else ctx)"

text \<open>
  The grid as the specification words it: \<open>repeatX * repeatY\<close> copies in row-major order,
  the copy in row \<open>row\<close> and column \<open>col\<close> at
  \<open>(startX + col * cellWidth, startY + row * cellHeight)\<close>, each of size
  \<open>cellWidth\<close> by \<open>cellHeight\<close>.
\<close>

definition spec_grid ::
  "number \<times> number \<Rightarrow> string \<Rightarrow> number \<Rightarrow> number \<Rightarrow> number \<Rightarrow> number \<Rightarrow> nat \<Rightarrow> nat
     \<Rightarrow> paint list" where
  "spec_grid t img startX startY cellWidth cellHeight repeatX repeatY =
     concat (map (\<lambda>row. map (\<lambda>col.
        (t, DrawImage img (startX + of_nat col * cellWidth) (startY + of_nat row * cellHeight)
              cellWidth cellHeight))
       [0..<repeatX]) [0..<repeatY])"

text \<open>
  The rectangle of the backing store that a painted rectangle or image covers, as left,
  top, right and bottom edge in device pixels: the coordinates passed, scaled by the
  transformation in force. A painted entry covers the canvas when that rectangle
  contains the whole backing store.
\<close>

fun device_rect :: "paint \<Rightarrow> (number \<times> number \<times> number \<times> number) option" where
  "device_rect ((sx, sy), FillRect style x y w h) =
     Some (sx * x, sy * y, sx * (x + w), sy * (y + h))"
| "device_rect ((sx, sy), DrawImage img x y w h) =
     Some (sx * x, sy * y, sx * (x + w), sy * (y + h))"
| "device_rect ((sx, sy), FillText text f style align x y) = None"

definition covers_canvas :: "canvas \<Rightarrow> paint \<Rightarrow> bool" where
  "covers_canvas c p =
     (case device_rect p of
        None \<Rightarrow> False
      | Some (x0, y0, x1, y1) \<Rightarrow>
          x0 \<le> 0 \<and> y0 \<le> 0 \<and> of_nat (width c) \<le> x1 \<and> of_nat (height c) \<le> y1)"


section \<open>Validation of the identifiers\<close>

text \<open>
  The network is a parameter. A lookup of an identifier gives \<open>None\<close> when the request
  or the decoding of its JSON body throws, and otherwise whether the response is
  \<^verbatim>\<open>ok\<close> together with the field \<^verbatim>\<open>imageUrl\<close> of the body; a \<^verbatim>\<open>HEAD\<close> request gives
  \<open>None\<close> when it throws and otherwise whether the response is \<^verbatim>\<open>ok\<close>.
\<close>

datatype js_value = JString string | JNumber number | JUndefined

record network =
  lookup :: "string \<Rightarrow> (bool \<times> js_value) option"
  head_request :: "string \<Rightarrow> bool option"

text \<open>
  Lines 49 to 82 of \<^verbatim>\<open>validateBarcodeUrl\<close>: the URL the group becomes valid with, or
  \<open>None\<close> when an error is thrown and caught.
\<close>

definition resolve :: "network \<Rightarrow> string \<Rightarrow> string option" where
  "resolve net v =
     (let isFullUrl = (startsWith v ''http://'' \<or> startsWith v ''https://'');
          urlToCheck =
            (if isFullUrl then Some v
             else (case lookup net v of
                     None \<Rightarrow> None
                   | Some (ok, imageUrl) \<Rightarrow>
                       if \<not> ok then None
                       else (case imageUrl of
                               JString u \<Rightarrow> if u = [] then None else Some u
                             | JNumber n \<Rightarrow> None
                             | JUndefined \<Rightarrow> None)))
      in case urlToCheck of
           None \<Rightarrow> None
         | Some u \<Rightarrow> (case head_request net u of
                        None \<Rightarrow> None
                      | Some ok \<Rightarrow> if ok then Some u else None))"

text \<open>
  The state updates of \<^verbatim>\<open>validateBarcodeUrl\<close> (lines 44, 47, 74 and 81). Each maps
  over the groups and rewrites the ones whose \<^verbatim>\<open>id\<close> is the one given.
\<close>

definition set_validation ::
  "number \<Rightarrow> ValidationStatus \<Rightarrow> string \<Rightarrow> BarcodeGroup list \<Rightarrow> BarcodeGroup list" where
  "set_validation i st url prev =
     map (\<lambda>g. if id_g g = i then g\<lparr>validationStatus := st, resolvedUrl := url\<rparr> else g) prev"

definition set_checking :: "number \<Rightarrow> BarcodeGroup list \<Rightarrow> BarcodeGroup list" where
  "set_checking i prev =
     map (\<lambda>g. if id_g g = i then g\<lparr>validationStatus := checking\<rparr> else g) prev"

text \<open>
  \<^verbatim>\<open>validateBarcodeUrl\<close> runs up to its first \<^verbatim>\<open>await\<close> when it is called, and the rest
  when the requests have completed. \<open>validate_start\<close> is the first part; it tells whether
  a request is now under way. \<open>validate_finish\<close> is the second part.
\<close>

definition validate_start ::
  "number \<Rightarrow> string \<Rightarrow> BarcodeGroup list \<Rightarrow> BarcodeGroup list \<times> bool" where
  "validate_start i v prev =
     (if v = [] then (set_validation i idle [] prev, False)
      else (set_checking i prev, True))"

definition validate_finish ::
  "network \<Rightarrow> number \<Rightarrow> string \<Rightarrow> BarcodeGroup list \<Rightarrow> BarcodeGroup list" where
  "validate_finish net i v prev =
     (case resolve net v of
        Some urlToCheck \<Rightarrow> set_validation i valid urlToCheck prev
      | None \<Rightarrow> set_validation i invalid [] prev)"

text \<open>
  \<^verbatim>\<open>handleGroupChange\<close> (lines 223 to 243), for the pairs of field and value that the
  form passes: a string for \<^verbatim>\<open>inputValue\<close> and \<^verbatim>\<open>title\<close>, a number for the counts and
  the margin.
\<close>

datatype edit =
    InputValue string
  | Title string
  | HorizontalCount number
  | VerticalCount number
  | MarginTop number

fun apply_edit :: "edit \<Rightarrow> BarcodeGroup \<Rightarrow> BarcodeGroup" where
  "apply_edit (InputValue v) g = g\<lparr>inputValue := v, resolvedUrl := [], validationStatus := idle\<rparr>"
| "apply_edit (Title v) g = g\<lparr>title := v\<rparr>"
| "apply_edit (HorizontalCount v) g = g\<lparr>horizontalCount := v\<rparr>"
| "apply_edit (VerticalCount v) g = g\<lparr>verticalCount := v\<rparr>"
| "apply_edit (MarginTop v) g = g\<lparr>marginTop := v\<rparr>"

definition handleGroupChange :: "number \<Rightarrow> edit \<Rightarrow> BarcodeGroup list \<Rightarrow> BarcodeGroup list" where
  "handleGroupChange idToUpdate e prev =
     map (\<lambda>g. if id_g g = idToUpdate then apply_edit e g else g) prev"

text \<open>
  The application as a state machine. The state is the list of groups and the
  validations that have started and not yet completed, each with the \<^verbatim>\<open>id\<close> and the
  value it was called with. An event is an edit of the form, the firing of the
  validation timer (lines 86 to 93: every group with an identifier and status \<open>idle\<close>
  starts a validation), or the completion of one of the validations under way, in any
  order.
\<close>

record app =
  barcodeGroups :: "BarcodeGroup list"
  in_flight :: "(number \<times> string) list"

datatype event = Change number edit | ValidationTimer | Completion nat

definition start_validation :: "app \<Rightarrow> BarcodeGroup \<Rightarrow> app" where
  "start_validation a g =
     (if inputValue g \<noteq> [] \<and> validationStatus g = idle
      then (let r = validate_start (id_g g) (inputValue g) (barcodeGroups a)
            in a\<lparr>barcodeGroups := fst r,
                 in_flight := (if snd r then in_flight a @ [(id_g g, inputValue g)]
                               else in_flight a)\<rparr>)
      else a)"

fun step :: "network \<Rightarrow> app \<Rightarrow> event \<Rightarrow> app" where
  "step net a (Change i e) = a\<lparr>barcodeGroups := handleGroupChange i e (barcodeGroups a)\<rparr>"
| "step net a ValidationTimer = foldl start_validation a (barcodeGroups a)"
| "step net a (Completion k) =
     (if k < length (in_flight a)
      then a\<lparr>barcodeGroups :=
               validate_finish net (fst (in_flight a ! k)) (snd (in_flight a ! k))
                 (barcodeGroups a),
             in_flight := take k (in_flight a) @ drop (Suc k) (in_flight a)\<rparr>
      else a)"

definition run :: "network \<Rightarrow> app \<Rightarrow> event list \<Rightarrow> app" where
  "run net a events = foldl (step net) a events"

text \<open>The application as it starts (lines 26 to 37), with \<open>now\<close> for \<^verbatim>\<open>Date.now()\<close>.\<close>

definition initial_app :: "number \<Rightarrow> app" where
  "initial_app now =
     \<lparr>barcodeGroups =
        [\<lparr>id_g = now, inputValue = ''1'', resolvedUrl = [], validationStatus = idle,
          title = [], horizontalCount = 5, verticalCount = 10, marginTop = 0\<rparr>],
      in_flight = []\<rparr>"

section \<open>Sample inputs\<close>

text \<open>
  A group as the form makes it and validation completes it, a loader that finds a raster
  image of 100 by 50 pixels behind every URL, a loader that finds nothing, and a preview
  canvas laid out at 600 by 848 CSS pixels.
\<close>

definition sample_group :: BarcodeGroup where
  "sample_group =
     \<lparr>id_g = 1, inputValue = ''1'', resolvedUrl = ''https://img.test/1.png'',
      validationStatus = valid, title = [], horizontalCount = 5, verticalCount = 10,
      marginTop = 0\<rparr>"

definition sample_loader :: loader where
  "sample_loader url = Some (100, 50)"

definition failing_loader :: loader where
  "failing_loader url = None"

definition preview_canvas :: canvas where
  "preview_canvas = createCanvas\<lparr>offsetWidth := 600, offsetHeight := 848\<rparr>"

text \<open>
  A network on which the identifiers \<open>A\<close> and \<open>B\<close> are known and every image is
  reachable.
\<close>

definition sample_network :: network where
  "sample_network =
     \<lparr>lookup = (\<lambda>v. if v = ''A'' then Some (True, JString ''https://img.test/A.png'')
                     else if v = ''B'' then Some (True, JString ''https://img.test/B.png'')
                     else Some (False, JUndefined)),
      head_request = (\<lambda>u. Some True)\<rparr>"

section \<open>The page constants in double precision\<close>

text \<open>
  A JavaScript number is an IEEE 754 double. For positive values in the normal range a
  double is \<open>m * 2 ^ e\<close> with a mantissa \<open>m\<close> of 53 bits; it is kept here as the pair
  \<open>(m, e)\<close>. \<open>nearest_double a b\<close> is the double nearest to the fraction \<open>a / b\<close>, ties going
  to the even mantissa, which is how a decimal literal is read and how the result of a
  multiplication is rounded. \<open>binade a b\<close> is the integer part of the binary logarithm of
  \<open>a / b\<close>, and \<open>bit_length n\<close> the number of binary digits of \<open>n\<close>.
\<close>

fun bit_length :: "nat \<Rightarrow> nat" where
  "bit_length n = (if n = 0 then 0 else Suc (bit_length (n div 2)))"

declare bit_length.simps [simp del]

definition round_div :: "int \<Rightarrow> int \<Rightarrow> int" where
  "round_div a b =
     (let f = a div b; r = a mod b
      in if 2 * r < b then f else if b < 2 * r then f + 1 else if even f then f else f + 1)"

definition binade :: "int \<Rightarrow> int \<Rightarrow> int" where
  "binade a b =
     (if b \<le> a then int (bit_length (nat (a div b))) - 1
      else (let k = int (bit_length (nat (b div a))) - 1
            in if a * 2 ^ nat k = b then - k else - (k + 1)))"

type_synonym double = "int \<times> int"

definition double_value :: "double \<Rightarrow> number" where
  "double_value d =
     (if 0 \<le> snd d then of_int (fst d * 2 ^ nat (snd d))
      else of_int (fst d) / of_int (2 ^ nat (- snd d)))"

definition nearest_double :: "int \<Rightarrow> int \<Rightarrow> double" where
  "nearest_double a b =
     (let e = binade a b - 52
      in if e \<le> 0 then (round_div (a * 2 ^ nat (- e)) b, e)
         else (round_div a (b * 2 ^ nat e), e))"

definition double_times :: "double \<Rightarrow> double \<Rightarrow> double" where
  "double_times x y =
     (let m = fst x * fst y; e = snd x + snd y
      in if 0 \<le> e then nearest_double (m * 2 ^ nat e) 1 else nearest_double m (2 ^ nat (- e)))"

text \<open>
  Lines 5 to 9 in double precision: the literals \<^verbatim>\<open>8.27\<close>, \<^verbatim>\<open>11.69\<close> and \<^verbatim>\<open>300\<close> are
  read as doubles and multiplied as doubles.
\<close>

definition A4_WIDTH_PX_double :: double where
  "A4_WIDTH_PX_double = double_times (nearest_double 827 100) (nearest_double 300 1)"

definition A4_HEIGHT_PX_double :: double where
  "A4_HEIGHT_PX_double = double_times (nearest_double 1169 100) (nearest_double 300 1)"

section \<open>What the canvas operations keep\<close>

lemma fillRect_fields:
  "has_context (fillRect x y w h c) = has_context c"
  "width (fillRect x y w h c) = width c"
  "height (fillRect x y w h c) = height c"
  "state (fillRect x y w h c) = state c"
  "saved (fillRect x y w h c) = saved c"
  "painted (fillRect x y w h c) =
     painted c @ [(transform (state c), FillRect (fillStyle (state c)) x y w h)]"
  by (simp_all add: fillRect_def)

lemma fillText_fields:
  "width (fillText t x y c) = width c"
  "height (fillText t x y c) = height c"
  "state (fillText t x y c) = state c"
  "saved (fillText t x y c) = saved c"
  "painted (fillText t x y c) =
     painted c @ [(transform (state c),
        FillText t (font (state c)) (fillStyle (state c)) (textAlign (state c)) x y)]"
  by (simp_all add: fillText_def)

lemma set_fillStyle_fields:
  "width (set_fillStyle s c) = width c"
  "height (set_fillStyle s c) = height c"
  "transform (state (set_fillStyle s c)) = transform (state c)"
  "fillStyle (state (set_fillStyle s c)) = s"
  "font (state (set_fillStyle s c)) = font (state c)"
  "textAlign (state (set_fillStyle s c)) = textAlign (state c)"
  "saved (set_fillStyle s c) = saved c"
  "painted (set_fillStyle s c) = painted c"
  by (simp_all add: set_fillStyle_def)

lemma set_font_fields:
  "width (set_font f c) = width c"
  "height (set_font f c) = height c"
  "transform (state (set_font f c)) = transform (state c)"
  "fillStyle (state (set_font f c)) = fillStyle (state c)"
  "font (state (set_font f c)) = f"
  "textAlign (state (set_font f c)) = textAlign (state c)"
  "saved (set_font f c) = saved c"
  "painted (set_font f c) = painted c"
  by (simp_all add: set_font_def)

lemma set_textAlign_fields:
  "width (set_textAlign a c) = width c"
  "height (set_textAlign a c) = height c"
  "transform (state (set_textAlign a c)) = transform (state c)"
  "fillStyle (state (set_textAlign a c)) = fillStyle (state c)"
  "font (state (set_textAlign a c)) = font (state c)"
  "textAlign (state (set_textAlign a c)) = a"
  "saved (set_textAlign a c) = saved c"
  "painted (set_textAlign a c) = painted c"
  by (simp_all add: set_textAlign_def)

lemma scale_fields:
  "width (scale x y c) = width c"
  "height (scale x y c) = height c"
  "transform (state (scale x y c)) =
     (fst (transform (state c)) * x, snd (transform (state c)) * y)"
  "saved (scale x y c) = saved c"
  "painted (scale x y c) = painted c"
  by (simp_all add: scale_def)

lemma save_fields:
  "width (save c) = width c"
  "height (save c) = height c"
  "state (save c) = state c"
  "saved (save c) = state c # saved c"
  "painted (save c) = painted c"
  by (simp_all add: save_def)

lemma restore_fields:
  "width (restore c) = width c"
  "height (restore c) = height c"
  "painted (restore c) = painted c"
  by (simp_all add: restore_def split: list.splits)

lemma set_size_fields:
  "width (set_width v c) = to_unsigned_long v"
  "height (set_width v c) = height c"
  "width (set_height v c) = width c"
  "height (set_height v c) = to_unsigned_long v"
  "state (set_width v c) = default_state"
  "state (set_height v c) = default_state"
  "saved (set_width v c) = []"
  "saved (set_height v c) = []"
  "painted (set_width v c) = []"
  "painted (set_height v c) = []"
  by (simp_all add: set_width_def set_height_def)

text \<open>The inner loop draws one row, the outer loop the rows from the top.\<close>

lemma drawRow_eq:
  "foldl (\<lambda>c x. drawImage img (f x) Y w h c) c xs =
     c\<lparr>painted := painted c @ map (\<lambda>x. (transform (state c), DrawImage img (f x) Y w h)) xs\<rparr>"
  by (induction xs arbitrary: c) (simp_all add: drawImage_def)

lemma drawRows_eq:
  "foldl (\<lambda>c y. c\<lparr>painted := painted c @ row (state c) y\<rparr>) c ys =
     c\<lparr>painted := painted c @ concat (map (row (state c)) ys)\<rparr>"
  by (induction ys arbitrary: c) simp_all

lemma drawGrid_eq:
  "drawGrid img startX startY bw bh hCount vCount c =
     c\<lparr>painted := painted c @
        concat (map (\<lambda>row. map (\<lambda>col.
           (transform (state c),
            DrawImage img (startX + of_nat col * bw) (startY + of_nat row * bh) bw bh))
          (loop_range hCount)) (loop_range vCount))\<rparr>"
  unfolding drawGrid_def Let_def drawRow_eq
  by (rule drawRows_eq
        [where row = "\<lambda>st y. map (\<lambda>x. (transform st,
            DrawImage img (startX + of_nat x * bw) (startY + of_nat y * bh) bw bh))
          (loop_range hCount)"])

lemma drawTitle_frame:
  "width (snd (drawTitle g s)) = width (snd s)"
  "height (snd (drawTitle g s)) = height (snd s)"
  "transform (state (snd (drawTitle g s))) = transform (state (snd s))"
  "saved (snd (drawTitle g s)) = saved (snd s)"
  by (simp_all add: drawTitle_def Let_def fillText_fields set_textAlign_fields
        set_fillStyle_fields set_font_fields)

lemma drawGroup_frame:
  "width (canvas_of (drawGroup load g s)) = width (snd s)"
  "height (canvas_of (drawGroup load g s)) = height (snd s)"
  "transform (state (canvas_of (drawGroup load g s))) = transform (state (snd s))"
  "saved (canvas_of (drawGroup load g s)) = saved (snd s)"
  by (simp_all add: canvas_of_def drawGroup_def Let_def drawGrid_eq drawTitle_frame
        split: option.splits)

lemma drawGroups_frame:
  "width (canvas_of (drawGroups load gs s)) = width (snd s)
   \<and> height (canvas_of (drawGroups load gs s)) = height (snd s)
   \<and> transform (state (canvas_of (drawGroups load gs s))) = transform (state (snd s))
   \<and> saved (canvas_of (drawGroups load gs s)) = saved (snd s)"
proof (induction gs arbitrary: s)
  case Nil
  show ?case by (simp add: canvas_of_def)
next
  case (Cons g gs)
  show ?case
  proof (cases "drawGroup load g s")
    case (Inl e)
    then show ?thesis
      using drawGroup_frame [of load g s] by (simp add: canvas_of_def)
  next
    case (Inr s')
    then show ?thesis
      using drawGroup_frame [of load g s] Cons.IH [of s'] by (simp add: canvas_of_def)
  qed
qed

lemma page_px: "A4_WIDTH_PX = 2481" "A4_HEIGHT_PX = 3507"
  by (simp_all add: A4_WIDTH_PX_def A4_HEIGHT_PX_def A4_WIDTH_INCHES_def
        A4_HEIGHT_INCHES_def DPI_def)

lemma export_pass_size:
  assumes "has_context canvas"
  shows "width (fst (drawOnCanvas dpr load canvas groups False error)) = 2481
       \<and> height (fst (drawOnCanvas dpr load canvas groups False error)) = 3507"
proof -
  let ?c0 = "fillRect 0 0 A4_WIDTH_PX A4_HEIGHT_PX
               (set_fillStyle ''white'' (set_height A4_HEIGHT_PX (set_width A4_WIDTH_PX canvas)))"
  have c0: "width ?c0 = 2481 \<and> height ?c0 = 3507"
    by (simp add: fillRect_fields set_fillStyle_fields set_size_fields page_px
          to_unsigned_long_def)
  show ?thesis
  proof (cases "filter contributes groups = []")
    case True
    then show ?thesis
      using assms c0 by (simp add: drawOnCanvas_def Let_def)
  next
    case False
    have fr: "width (canvas_of (drawGroups load (filter contributes groups) (0, ?c0))) = 2481
            \<and> height (canvas_of (drawGroups load (filter contributes groups) (0, ?c0))) = 3507"
      using drawGroups_frame [of load "filter contributes groups" "(0, ?c0)"] c0 by simp
    show ?thesis
    proof (cases "drawGroups load (filter contributes groups) (0, ?c0)")
      case (Inl e)
      then show ?thesis
        using assms False fr
        by (simp add: drawOnCanvas_def Let_def drawContent_def canvas_of_def fillRect_fields
              set_fillStyle_fields)
    next
      case (Inr t)
      then show ?thesis
        using assms False fr
        by (simp add: drawOnCanvas_def Let_def drawContent_def canvas_of_def)
    qed
  qed
qed

section \<open>The shape of a pass\<close>

lemma drawOnCanvas_no_context:
  "\<not> has_context canvas \<Longrightarrow> drawOnCanvas dpr load canvas groups isPreview error = (canvas, error)"
  by (simp add: drawOnCanvas_def)

lemma drawOnCanvas_nothing_to_draw:
  assumes "has_context canvas" and "filter contributes groups = []"
  shows "drawOnCanvas dpr load canvas groups isPreview error
           = (background dpr canvas isPreview, error)"
  using assms by (simp add: drawOnCanvas_def background_def logicalSize_def Let_def)

lemma drawOnCanvas_drawn:
  assumes "has_context canvas" and "filter contributes groups \<noteq> []"
    and "drawContent load (filter contributes groups) (content_canvas dpr canvas isPreview) = Inr s"
  shows "drawOnCanvas dpr load canvas groups isPreview error
           = (if isPreview then restore (snd s) else snd s, None)"
  using assms
  by (cases isPreview)
     (simp_all add: drawOnCanvas_def content_canvas_def background_def logicalSize_def Let_def)

lemma drawOnCanvas_thrown:
  assumes "has_context canvas" and "filter contributes groups \<noteq> []"
    and "drawContent load (filter contributes groups) (content_canvas dpr canvas isPreview) = Inl e"
  shows "drawOnCanvas dpr load canvas groups isPreview error
           = (fillRect 0 0 (fst (logicalSize canvas isPreview)) (snd (logicalSize canvas isPreview))
                (set_fillStyle ''rgba(255, 0, 0, 0.1)'' (snd e)),
              Some (message (fst e)))"
  using assms
  by (cases isPreview)
     (simp_all add: drawOnCanvas_def content_canvas_def background_def logicalSize_def Let_def)

lemma drawGroups_append:
  "drawGroups load (xs @ ys) s =
     (case drawGroups load xs s of Inl e \<Rightarrow> Inl e | Inr s' \<Rightarrow> drawGroups load ys s')"
  by (induction xs arbitrary: s) (simp_all split: sum.splits)




lemma drawGroup_drawn:
  assumes "load (resolvedUrl g) = Some natural"
    and "cellSize (resolvedUrl g) natural = (cw, ch)" and "cw \<noteq> 0" and "ch \<noteq> 0"
    and "fst (drawTitle g (y + marginTop g * DPI, c)) + verticalCount g * ch \<le> A4_HEIGHT_PX"
  shows "drawGroup load g (y, c)
           = Inr (fst (drawTitle g (y + marginTop g * DPI, c)) + verticalCount g * ch,
                  (snd (drawTitle g (y + marginTop g * DPI, c)))
                    \<lparr>painted := painted (snd (drawTitle g (y + marginTop g * DPI, c))) @
                       concat (map (\<lambda>row. map (\<lambda>col.
                          (transform (state c),
                           DrawImage (resolvedUrl g)
                             ((A4_WIDTH_PX - horizontalCount g * cw) / 2 + of_nat col * cw)
                             (fst (drawTitle g (y + marginTop g * DPI, c)) + of_nat row * ch)
                             cw ch))
                         (loop_range (horizontalCount g))) (loop_range (verticalCount g)))\<rparr>)"
  using assms drawTitle_frame(3) [of g "(y + marginTop g * DPI, c)"]
  by (simp add: drawGroup_def Let_def drawGrid_eq)

lemma loop_range_of_nat: "loop_range (of_nat n) = [0..<n]"
  by (simp add: loop_range_def)

lemma drawTitle_painted:
  "painted (snd (drawTitle g (y, c))) =
     painted c @ (if hasTitle g
                  then [(transform (state c),
                         FillText (title g) (Font True fontSizePx ''sans-serif'') ''black''
                           ''center'' (A4_WIDTH_PX / 2) (y + fontSizePx))]
                  else [])"
  by (simp add: drawTitle_def Let_def fillText_fields set_textAlign_fields
        set_fillStyle_fields set_font_fields)



section \<open>The grid of one group\<close>

lemma spec_grid_length:
  "length (spec_grid t img sx sy cw ch rx ry) = rx * ry"
  by (simp add: spec_grid_def length_concat comp_def sum_list_triv)

lemma spec_grid_member:
  assumes "row < ry" and "col < rx"
  shows "(t, DrawImage img (sx + of_nat col * cw) (sy + of_nat row * ch) cw ch)
           \<in> set (spec_grid t img sx sy cw ch rx ry)"
proof -
  have "(t, DrawImage img (sx + of_nat col * cw) (sy + of_nat row * ch) cw ch)
          \<in> (\<lambda>col. (t, DrawImage img (sx + of_nat col * cw) (sy + of_nat row * ch) cw ch))
              ` {0..<rx}"
    using assms(2) by (intro imageI) simp
  then show ?thesis
    using assms(1) by (simp add: spec_grid_def) (intro bexI [of _ row], simp_all)
qed

lemma spec_grid_cell:
  assumes "p \<in> set (spec_grid t img sx sy cw ch rx ry)"
  shows "\<exists>row col. row < ry \<and> col < rx
           \<and> p = (t, DrawImage img (sx + of_nat col * cw) (sy + of_nat row * ch) cw ch)"
  using assms by (auto simp: spec_grid_def) blast

lemma cellSize_nonneg:
  assumes "cellSize url natural = (cw, ch)"
  shows "0 \<le> cw \<and> 0 \<le> ch"
  using assms by (auto simp: cellSize_def Let_def DPI_def split: if_splits)

lemma spec_grid_inside:
  assumes "0 \<le> cw" and "0 \<le> ch"
    and "(t', DrawImage img' x y w h) \<in> set (spec_grid t img sx sy cw ch rx ry)"
  shows "sx \<le> x \<and> x + w \<le> sx + of_nat rx * cw \<and> sy \<le> y \<and> y + h \<le> sy + of_nat ry * ch
         \<and> w = cw \<and> h = ch"
proof -
  obtain row col where rc: "row < ry" "col < rx"
    and x: "x = sx + of_nat col * cw" and y: "y = sy + of_nat row * ch"
    and w: "w = cw" and h: "h = ch"
    using spec_grid_cell [OF assms(3)] by auto
  have "of_nat (Suc col) * cw \<le> of_nat rx * cw"
    using rc(2) assms(1) by (intro mult_right_mono) (simp_all add: Suc_leI del: of_nat_Suc)
  moreover have "of_nat (Suc row) * ch \<le> of_nat ry * ch"
    using rc(1) assms(2) by (intro mult_right_mono) (simp_all add: Suc_leI del: of_nat_Suc)
  ultimately show ?thesis
    using assms(1,2) x y w h by (simp add: algebra_simps)
qed

lemma spec_grid_corners:
  assumes "0 < rx" and "0 < ry"
  shows "(t, DrawImage img sx sy cw ch) \<in> set (spec_grid t img sx sy cw ch rx ry)
       \<and> (t, DrawImage img (sx + of_nat rx * cw - cw) (sy + of_nat ry * ch - ch) cw ch)
           \<in> set (spec_grid t img sx sy cw ch rx ry)"
proof -
  have first: "(t, DrawImage img sx sy cw ch) \<in> set (spec_grid t img sx sy cw ch rx ry)"
    using spec_grid_member [of 0 ry 0 rx t img sx cw sy ch] assms by simp
  have "sx + of_nat rx * cw - cw = sx + of_nat (rx - 1) * cw"
    using assms(1) by (simp add: of_nat_diff algebra_simps)
  moreover have "sy + of_nat ry * ch - ch = sy + of_nat (ry - 1) * ch"
    using assms(2) by (simp add: of_nat_diff algebra_simps)
  moreover have "(t, DrawImage img (sx + of_nat (rx - 1) * cw) (sy + of_nat (ry - 1) * ch) cw ch)
           \<in> set (spec_grid t img sx sy cw ch rx ry)"
    using spec_grid_member [of "ry - 1" ry "rx - 1" rx t img sx cw sy ch] assms by simp
  ultimately show ?thesis
    using first by (simp only:)
qed

section \<open>The offset only grows, and no image leaves the page below\<close>










lemma drawGroup_keeps_painted:
  "\<exists>ps. painted (canvas_of (drawGroup load g s)) = painted (snd s) @ ps"
  by (cases s)
     (simp add: canvas_of_def drawGroup_def Let_def drawGrid_eq drawTitle_painted
        split: option.splits)

lemma drawGroups_keeps_painted:
  "\<exists>ps. painted (canvas_of (drawGroups load gs s)) = painted (snd s) @ ps"
proof (induction gs arbitrary: s)
  case Nil
  show ?case by (simp add: canvas_of_def)
next
  case (Cons g gs)
  from drawGroup_keeps_painted [of load g s] obtain ps where
    ps: "painted (canvas_of (drawGroup load g s)) = painted (snd s) @ ps"
    by blast
  show ?case
  proof (cases "drawGroup load g s")
    case (Inl e)
    then show ?thesis using ps by (simp add: canvas_of_def)
  next
    case (Inr s')
    from Cons.IH [of s'] obtain qs where
      "painted (canvas_of (drawGroups load gs s')) = painted (snd s') @ qs"
      by blast
    then have "painted (canvas_of (drawGroups load (g # gs) s)) = painted (snd s) @ (ps @ qs)"
      using Inr ps by (simp add: canvas_of_def)
    then show ?thesis by blast
  qed
qed

lemma loop_range_first: "0 < n \<Longrightarrow> 0 \<in> set (loop_range n)"
  by (simp add: loop_range_def)

lemma loop_range_last:
  assumes "0 < n"
  shows "nat \<lceil>n\<rceil> - 1 \<in> set (loop_range n) \<and> n \<le> of_nat (nat \<lceil>n\<rceil> - 1) + 1"
proof -
  have "0 < \<lceil>n\<rceil>" using assms by simp
  then obtain m where m: "nat \<lceil>n\<rceil> = Suc m"
    by (cases "nat \<lceil>n\<rceil>") simp_all
  have "n \<le> of_int \<lceil>n\<rceil>" by (rule le_of_int_ceiling)
  also have "of_int \<lceil>n\<rceil> = (of_nat (nat \<lceil>n\<rceil>) :: rat)"
    using \<open>0 < \<lceil>n\<rceil>\<close> by simp
  also have "\<dots> = of_nat (nat \<lceil>n\<rceil> - 1) + 1"
    by (simp add: m)
  finally show ?thesis
    by (simp add: loop_range_def m)
qed

lemma cell_member:
  "row \<in> set ys \<Longrightarrow> col \<in> set xs
     \<Longrightarrow> f row col \<in> set (concat (map (\<lambda>row. map (\<lambda>col. f row col) xs) ys))"
  by auto

section \<open>The overlay of a failed pass\<close>

lemma content_canvas_transform:
  "transform (state (content_canvas dpr canvas isPreview))
     = (if isPreview
        then (let d = (if dpr = 0 then 1 else dpr);
                  s = min (of_int (offsetWidth canvas) / A4_WIDTH_PX)
                          (of_int (offsetHeight canvas) / A4_HEIGHT_PX)
              in (d * s, d * s))
        else (1, 1))"
  by (simp add: content_canvas_def background_def logicalSize_def Let_def scale_fields
        save_fields fillRect_fields set_fillStyle_fields set_size_fields default_state_def)

lemma thrown_overlay:
  assumes "has_context canvas" and "filter contributes groups \<noteq> []"
    and "drawContent load (filter contributes groups) (content_canvas dpr canvas isPreview) = Inl e"
  shows "last (painted (fst (drawOnCanvas dpr load canvas groups isPreview error)))
           = (transform (state (content_canvas dpr canvas isPreview)),
              FillRect ''rgba(255, 0, 0, 0.1)'' 0 0 (fst (logicalSize canvas isPreview))
                (snd (logicalSize canvas isPreview)))"
proof -
  have "transform (state (snd e)) = transform (state (content_canvas dpr canvas isPreview))"
    using drawGroups_frame [of load "filter contributes groups"
        "(0, content_canvas dpr canvas isPreview)"] assms(3)
    by (simp add: drawContent_def canvas_of_def)
  then show ?thesis
    by (simp add: drawOnCanvas_thrown [OF assms] fillRect_fields set_fillStyle_fields)
qed

lemma export_overlay_covers:
  assumes "has_context canvas" and "filter contributes groups \<noteq> []"
    and "drawContent load (filter contributes groups) (content_canvas dpr canvas False) = Inl e"
  shows "covers_canvas (fst (drawOnCanvas dpr load canvas groups False error))
           (last (painted (fst (drawOnCanvas dpr load canvas groups False error))))"
  using export_pass_size [OF assms(1), of dpr load groups error]
  by (simp add: thrown_overlay [OF assms] content_canvas_transform logicalSize_def
        covers_canvas_def page_px)

lemma export_of_nothing:
  assumes "filter contributes groups = []"
  shows "handleGenerateAndDownload dpr load groups
           = (createCanvas\<lparr>width := 2481, height := 3507,
                state := default_state\<lparr>fillStyle := ''white''\<rparr>,
                painted := [((1, 1), FillRect ''white'' 0 0 2481 3507)]\<rparr>,
              None)"
proof -
  have "has_context createCanvas"
    by (simp add: createCanvas_def)
  then have "handleGenerateAndDownload dpr load groups = (background dpr createCanvas False, None)"
    unfolding handleGenerateAndDownload_def using assms
    by (rule drawOnCanvas_nothing_to_draw)
  then show ?thesis
    by (simp add: background_def logicalSize_def Let_def page_px set_width_def set_height_def
          set_fillStyle_def fillRect_def to_unsigned_long_def createCanvas_def default_state_def)
qed

section \<open>Resolution on the sample network\<close>

lemma resolve_A: "resolve sample_network ''A'' = Some ''https://img.test/A.png''"
  by (simp add: resolve_def sample_network_def startsWith_def Let_def)

lemma resolve_B: "resolve sample_network ''B'' = Some ''https://img.test/B.png''"
  by (simp add: resolve_def sample_network_def startsWith_def Let_def)

section \<open>The page constants are exact in double precision\<close>

lemma bit_length_numeral:
  "bit_length 0 = 0"
  "bit_length (Suc 0) = Suc 0"
  "bit_length (numeral k) = Suc (bit_length (numeral k div 2))"
  by (simp_all add: bit_length.simps [of 0] bit_length.simps [of "Suc 0"]
        bit_length.simps [of "numeral k"])

lemma binade_literals: "binade 827 100 = 3" "binade 1169 100 = 3" "binade 300 1 = 8"
  by (simp_all add: binade_def bit_length_numeral)

lemma double_literals: "nearest_double 827 100 = (4655596114794250, - 49)"
  "nearest_double 1169 100 = (6580884955495137, - 49)"
  "nearest_double 300 1 = (5277655813324800, - 44)"
  unfolding nearest_double_def binade_literals Let_def by (simp_all add: round_div_def Let_def)

lemma double_times_literals: "double_times (a, - 49) (b, - 44) = nearest_double (a * b) (2 ^ 93)"
  by (simp add: double_times_def Let_def)

lemma binade_products: "binade (4655596114794250 * 5277655813324800) (2 ^ 93) = 11"
  "binade (6580884955495137 * 5277655813324800) (2 ^ 93) = 11"
  by (simp_all add: binade_def bit_length_numeral)

lemma nearest_products: "nearest_double (4655596114794250 * 5277655813324800) (2 ^ 93)
             = (5455776697024512, - 41)"
  "nearest_double (6580884955495137 * 5277655813324800) (2 ^ 93) = (7711974557220864, - 41)"
  unfolding nearest_double_def binade_products Let_def by (simp_all add: round_div_def Let_def)

lemma double_products: "double_times (nearest_double 827 100) (nearest_double 300 1) = (5455776697024512, - 41)"
  "double_times (nearest_double 1169 100) (nearest_double 300 1) = (7711974557220864, - 41)"
  by (simp_all only: double_literals double_times_literals nearest_products)

lemma page_px_double:
  "double_value A4_WIDTH_PX_double = 2481" "double_value A4_HEIGHT_PX_double = 3507"
  unfolding A4_WIDTH_PX_double_def A4_HEIGHT_PX_double_def double_products
  by (simp_all add: double_value_def)

section \<open>The page constants and the size of the exported canvas\<close>

text \<open>
  C9. The page is 8.27 in by 11.69 in at 300 DPI, which is exactly 2481 by 3507 pixels;
  the constants are closed terms, so they never change. The same two products computed
  in double precision, with 8.27 and 11.69 read as the nearest doubles, are exactly 2481
  and 3507 as well, so nothing is lost when they are assigned to the size of a canvas. A
  pass that is not a preview leaves the backing store of its canvas at exactly that
  width and height, whatever the groups, the loader and the outcome of the pass; the
  export encodes that canvas.
\<close>

theorem page_constants_and_export_size:
  "A4_WIDTH_PX = 8.27 * 300 \<and> A4_WIDTH_PX = 2481
   \<and> A4_HEIGHT_PX = 11.69 * 300 \<and> A4_HEIGHT_PX = 3507
   \<and> double_value A4_WIDTH_PX_double = A4_WIDTH_PX
   \<and> double_value A4_HEIGHT_PX_double = A4_HEIGHT_PX
   \<and> (has_context canvas \<longrightarrow>
        of_nat (width (fst (drawOnCanvas dpr load canvas groups False error))) = A4_WIDTH_PX
      \<and> of_nat (height (fst (drawOnCanvas dpr load canvas groups False error))) = A4_HEIGHT_PX)"
  using export_pass_size [of canvas dpr load groups error]
  by (simp add: page_px page_px_double)

theorem page_constants_and_export_size_witness:
  "has_context createCanvas
   \<and> of_nat (width (fst (handleGenerateAndDownload 2 (\<lambda>u. None) []))) = A4_WIDTH_PX
   \<and> of_nat (height (fst (handleGenerateAndDownload 2 (\<lambda>u. None) []))) = A4_HEIGHT_PX"
  using page_constants_and_export_size [of createCanvas 2 "\<lambda>u. None" "[]" None]
  by (simp add: handleGenerateAndDownload_def createCanvas_def)

section \<open>When the download is disabled\<close>

text \<open>
  C8. The download button is rendered with \<^verbatim>\<open>disabled={isDownloadDisabled}\<close>. It is
  disabled whenever there is no group, or some group is not \<open>valid\<close>, or some group has a
  horizontal or vertical count that is not positive, whatever the other groups are.
\<close>

theorem download_disabled:
  "groups = []
   \<or> (\<exists>g \<in> set groups. validationStatus g \<noteq> valid
         \<or> horizontalCount g \<le> 0 \<or> verticalCount g \<le> 0)
   \<Longrightarrow> isDownloadDisabled isLoading groups"
  by (auto simp: isDownloadDisabled_def list_ex_iff)

theorem download_disabled_witness:
  "isDownloadDisabled False
     [\<lparr>id_g = 1, inputValue = ''1'', resolvedUrl = ''https://x.test/1.png'',
       validationStatus = valid, title = '''', horizontalCount = 5, verticalCount = 10,
       marginTop = 0\<rparr>,
      \<lparr>id_g = 2, inputValue = ''2'', resolvedUrl = '''',
       validationStatus = invalid, title = '''', horizontalCount = 5, verticalCount = 10,
       marginTop = 0.1\<rparr>]"
  using download_disabled [of
     "[\<lparr>id_g = 1, inputValue = ''1'', resolvedUrl = ''https://x.test/1.png'',
       validationStatus = valid, title = '''', horizontalCount = 5, verticalCount = 10,
       marginTop = 0\<rparr>,
      \<lparr>id_g = 2, inputValue = ''2'', resolvedUrl = '''',
       validationStatus = invalid, title = '''', horizontalCount = 5, verticalCount = 10,
       marginTop = 0.1\<rparr>]" False]
  by simp

section \<open>Vector images are scaled to the page resolution\<close>



section \<open>The title band\<close>




section \<open>Where the cells of a group are drawn\<close>

text \<open>
  C1, as the claim states it, fails: the image of a group can load and still no copy of
  it be drawn, because the grid is checked against the height of the page first (lines
  166 to 168). Here one valid group of 5 by 100 cells of 100 by 50 pixels is exported:
  the canvas holds the white background and the red overlay and no image.
\<close>

theorem overflowing_grid_counterexample:
  "contributes (sample_group\<lparr>verticalCount := 100\<rparr>)
   \<and> sample_loader (resolvedUrl (sample_group\<lparr>verticalCount := 100\<rparr>)) = Some (100, 50)
   \<and> cellSize (resolvedUrl (sample_group\<lparr>verticalCount := 100\<rparr>)) (100, 50) = (100, 50)
   \<and> handleGenerateAndDownload 1 sample_loader [sample_group\<lparr>verticalCount := 100\<rparr>]
     = (createCanvas
          \<lparr>width := 2481, height := 3507,
           state := default_state\<lparr>fillStyle := ''rgba(255, 0, 0, 0.1)''\<rparr>,
           painted := [((1, 1), FillRect ''white'' 0 0 2481 3507),
                       ((1, 1), FillRect ''rgba(255, 0, 0, 0.1)'' 0 0 2481 3507)]\<rparr>,
        Some ''Content overflows A4 page. Reduce counts or adjust margins.'')"
  by (simp add: handleGenerateAndDownload_def drawOnCanvas_def Let_def createCanvas_def
        set_width_def set_height_def set_fillStyle_def fillRect_def
        to_unsigned_long_def default_state_def contributes_def sample_group_def
        drawContent_def drawGroup_def drawTitle_def hasTitle_def sample_loader_def
        cellSize_def endsWith_def toLowerCase_def lower_char_def page_px)

text \<open>
  C1, amended. Take any turn of the loop, at any offset \<open>y\<close> and on any canvas \<open>c\<close>, for a
  group whose image loads with cells of \<open>cellWidth\<close> by \<open>cellHeight\<close> (after the correction
  for vector images, neither being zero), whose counts are the whole numbers \<open>repeatX\<close>
  and \<open>repeatY\<close>, and whose grid ends at or above the bottom of the page, so that the turn
  reaches the drawing. \<open>cursorY\<close> is the offset after the margin and the title. Then the
  turn draws, after the title, exactly the grid of the specification:
  \<open>repeatX * repeatY\<close> copies in row-major order, the copy in row \<open>row\<close> and column \<open>col\<close>
  at \<open>(startX + col * cellWidth, cursorY + row * cellHeight)\<close> with
  \<open>startX = (A4_WIDTH_PX - repeatX * cellWidth) / 2\<close>, which depends on this group only.
  Every copy is \<open>cellWidth\<close> by \<open>cellHeight\<close> and lies in the rectangle from
  \<open>(startX, cursorY)\<close> of width \<open>repeatX * cellWidth\<close> and height
  \<open>repeatY * cellHeight\<close>; the first copy has its corner at \<open>(startX, cursorY)\<close> and the
  last one ends at the opposite corner, so the grid occupies exactly that rectangle. The
  example of the claim, one group of 5 by 10 cells of 100 by 50 pixels with no margin and
  no title, is the instance proved after the theorem, for a whole export pass.
\<close>

theorem grid_placement:
  fixes load :: loader and g :: BarcodeGroup and y :: number and c :: canvas
    and repeatX repeatY :: nat
  defines "cursorY \<equiv> fst (drawTitle g (y + marginTop g * DPI, c))"
  defines "titled \<equiv> snd (drawTitle g (y + marginTop g * DPI, c))"
  assumes "load (resolvedUrl g) = Some natural"
    and "cellSize (resolvedUrl g) natural = (cellWidth, cellHeight)"
    and "cellWidth \<noteq> 0" and "cellHeight \<noteq> 0"
    and "horizontalCount g = of_nat repeatX" and "verticalCount g = of_nat repeatY"
    and "cursorY + of_nat repeatY * cellHeight \<le> A4_HEIGHT_PX"
  defines "startX \<equiv> (A4_WIDTH_PX - of_nat repeatX * cellWidth) / 2"
  defines "cells \<equiv> spec_grid (transform (state c)) (resolvedUrl g) startX cursorY
                   cellWidth cellHeight repeatX repeatY"
  shows "drawGroup load g (y, c)
           = Inr (cursorY + of_nat repeatY * cellHeight,
                  titled\<lparr>painted := painted titled @ cells\<rparr>)
       \<and> length cells = repeatX * repeatY
       \<and> (\<forall>t img x' y' w h. (t, DrawImage img x' y' w h) \<in> set cells \<longrightarrow>
            w = cellWidth \<and> h = cellHeight
          \<and> startX \<le> x' \<and> x' + w \<le> startX + of_nat repeatX * cellWidth
          \<and> cursorY \<le> y' \<and> y' + h \<le> cursorY + of_nat repeatY * cellHeight)
       \<and> (0 < repeatX \<and> 0 < repeatY \<longrightarrow>
            (transform (state c), DrawImage (resolvedUrl g) startX cursorY cellWidth cellHeight)
              \<in> set cells
          \<and> (transform (state c), DrawImage (resolvedUrl g)
               (startX + of_nat repeatX * cellWidth - cellWidth)
               (cursorY + of_nat repeatY * cellHeight - cellHeight) cellWidth cellHeight)
              \<in> set cells)"
proof -
  have fits: "fst (drawTitle g (y + marginTop g * DPI, c)) + verticalCount g * cellHeight
                \<le> A4_HEIGHT_PX"
    using assms(8,9) by (simp add: cursorY_def)
  note d = drawGroup_drawn [of load g natural cellWidth cellHeight y c,
      OF assms(3) assms(4) assms(5) assms(6) fits]
  have drawn: "drawGroup load g (y, c)
           = Inr (cursorY + of_nat repeatY * cellHeight,
                  titled\<lparr>painted := painted titled @ cells\<rparr>)"
    unfolding cells_def spec_grid_def startX_def cursorY_def titled_def
    by (rule d [unfolded assms(7) assms(8) loop_range_of_nat])
  have nonneg: "0 \<le> cellWidth" "0 \<le> cellHeight"
    using cellSize_nonneg [OF assms(4)] by simp_all
  have inside: "\<forall>t img x' y' w h. (t, DrawImage img x' y' w h) \<in> set cells \<longrightarrow>
            w = cellWidth \<and> h = cellHeight
          \<and> startX \<le> x' \<and> x' + w \<le> startX + of_nat repeatX * cellWidth
          \<and> cursorY \<le> y' \<and> y' + h \<le> cursorY + of_nat repeatY * cellHeight"
    using spec_grid_inside [OF nonneg] unfolding cells_def by blast
  have count: "length cells = repeatX * repeatY"
    unfolding cells_def by (rule spec_grid_length)
  have corners: "0 < repeatX \<and> 0 < repeatY \<longrightarrow>
            (transform (state c), DrawImage (resolvedUrl g) startX cursorY cellWidth cellHeight)
              \<in> set cells
          \<and> (transform (state c), DrawImage (resolvedUrl g)
               (startX + of_nat repeatX * cellWidth - cellWidth)
               (cursorY + of_nat repeatY * cellHeight - cellHeight) cellWidth cellHeight)
              \<in> set cells"
    unfolding cells_def using spec_grid_corners [of repeatX repeatY] by blast
  from drawn count inside corners show ?thesis
    by (intro conjI)
qed


theorem grid_placement_witness:
  "handleGenerateAndDownload 1 sample_loader [sample_group]
     = (createCanvas
          \<lparr>width := 2481, height := 3507,
           state := default_state\<lparr>fillStyle := ''white''\<rparr>,
           painted := ((1, 1), FillRect ''white'' 0 0 2481 3507)
              # spec_grid (1, 1) ''https://img.test/1.png'' ((2481 - 500) / 2) 0 100 50 5 10\<rparr>,
        None)
   \<and> length (spec_grid (1, 1) ''https://img.test/1.png'' ((2481 - 500) / 2) 0 100 50 5 10) = 50
   \<and> ((1, 1), DrawImage ''https://img.test/1.png'' ((2481 - 500) / 2) 0 100 50)
        \<in> set (spec_grid (1, 1) ''https://img.test/1.png'' ((2481 - 500) / 2) 0 100 50 5 10)
   \<and> ((1, 1), DrawImage ''https://img.test/1.png'' ((2481 - 500) / 2 + 500 - 100)
              (0 + 500 - 50) 100 50)
        \<in> set (spec_grid (1, 1) ''https://img.test/1.png'' ((2481 - 500) / 2) 0 100 50 5 10)"
proof -
  let ?c0 = "content_canvas 1 createCanvas False"
  have c0: "?c0 = createCanvas
          \<lparr>width := 2481, height := 3507,
           state := default_state\<lparr>fillStyle := ''white''\<rparr>,
           painted := [((1, 1), FillRect ''white'' 0 0 2481 3507)]\<rparr>"
    by (simp add: content_canvas_def background_def logicalSize_def Let_def page_px
          set_width_def set_height_def set_fillStyle_def fillRect_def to_unsigned_long_def
          createCanvas_def default_state_def)
  have load: "sample_loader (resolvedUrl sample_group) = Some (100, 50)"
    by (simp add: sample_loader_def)
  have size: "cellSize (resolvedUrl sample_group) (100, 50) = (100, 50)"
    by code_simp
  have untitled: "drawTitle sample_group (0 + marginTop sample_group * DPI, ?c0) = (0, ?c0)"
    by (simp add: drawTitle_def hasTitle_def sample_group_def)
  have fits: "fst (drawTitle sample_group (0 + marginTop sample_group * DPI, ?c0))
                + of_nat 10 * 50 \<le> A4_HEIGHT_PX"
    unfolding untitled by (simp add: page_px)
  have counts: "horizontalCount sample_group = of_nat 5" "verticalCount sample_group = of_nat 10"
    by (simp_all add: sample_group_def)
  note g = grid_placement [of sample_loader sample_group "(100, 50)" 100 50 5 10 0 ?c0,
      OF load size _ _ counts fits, unfolded untitled]
  have url: "resolvedUrl sample_group = ''https://img.test/1.png''"
    by (simp add: sample_group_def)
  have t: "transform (state ?c0) = (1, 1)"
    unfolding c0 by (simp add: createCanvas_def default_state_def)
  have cg: "contributes sample_group"
    by (simp add: contributes_def sample_group_def)
  have some: "filter contributes [sample_group] \<noteq> []"
    using cg by simp
  have with_ctx: "has_context createCanvas"
    by (simp add: createCanvas_def)
  have content: "drawContent sample_loader (filter contributes [sample_group]) ?c0
      = Inr (500, ?c0\<lparr>painted := painted ?c0
          @ spec_grid (1, 1) ''https://img.test/1.png'' ((2481 - 500) / 2) 0 100 50 5 10\<rparr>)"
    using g cg by (simp add: drawContent_def url t page_px)
  have pass: "handleGenerateAndDownload 1 sample_loader [sample_group]
      = (?c0\<lparr>painted := painted ?c0
          @ spec_grid (1, 1) ''https://img.test/1.png'' ((2481 - 500) / 2) 0 100 50 5 10\<rparr>, None)"
    unfolding handleGenerateAndDownload_def
    using drawOnCanvas_drawn [OF with_ctx some content, of None] by simp
  have "transform default_state = (1, 1)"
    by (simp add: default_state_def)
  then show ?thesis
    using g pass by (simp add: c0 url t page_px)
qed

section \<open>Overflow below the page\<close>



section \<open>No check of the width\<close>

text \<open>
  C10. Take any pass and any group \<open>g\<close> of those that are drawn, reached with the offset
  \<open>y\<close>, whose image loads with cells that are not of zero size, whose grid is wider than
  the page and does not overflow the page below. Then \<open>startX\<close> is negative; the turn of
  \<open>g\<close> throws nothing: it returns, having painted the first cell of the top row at
  \<open>startX\<close>, left of the page, and the last cell of the top row, whose right edge is beyond
  \<open>A4_WIDTH_PX\<close>; and if the groups after \<open>g\<close> throw nothing either, the pass ends with
  no error and with both cells on the canvas.
\<close>

theorem no_horizontal_check:
  fixes load :: loader and g :: BarcodeGroup and y :: number and c :: canvas
  defines "cursorY \<equiv> fst (drawTitle g (y + marginTop g * DPI, c))"
  assumes "has_context canvas"
    and "filter contributes groups = before @ g # rest"
    and "drawGroups load before (0, content_canvas dpr canvas isPreview) = Inr (y, c)"
    and "load (resolvedUrl g) = Some natural"
    and "cellSize (resolvedUrl g) natural = (cellWidth, cellHeight)"
    and "cellWidth \<noteq> 0" and "cellHeight \<noteq> 0"
    and "A4_WIDTH_PX < horizontalCount g * cellWidth"
    and "cursorY + verticalCount g * cellHeight \<le> A4_HEIGHT_PX"
  defines "startX \<equiv> (A4_WIDTH_PX - horizontalCount g * cellWidth) / 2"
  defines "lastX \<equiv> startX + of_nat (nat \<lceil>horizontalCount g\<rceil> - 1) * cellWidth"
  shows "startX < 0 \<and> A4_WIDTH_PX < lastX + cellWidth
       \<and> (\<exists>c'. drawGroup load g (y, c) = Inr (cursorY + verticalCount g * cellHeight, c')
            \<and> (transform (state c), DrawImage (resolvedUrl g) startX cursorY cellWidth cellHeight)
                 \<in> set (painted c')
            \<and> (transform (state c), DrawImage (resolvedUrl g) lastX cursorY cellWidth cellHeight)
                 \<in> set (painted c')
            \<and> (\<forall>final. drawGroups load rest (cursorY + verticalCount g * cellHeight, c')
                           = Inr final \<longrightarrow>
                 snd (drawOnCanvas dpr load canvas groups isPreview error) = None
               \<and> (transform (state c),
                    DrawImage (resolvedUrl g) startX cursorY cellWidth cellHeight)
                   \<in> set (painted (fst (drawOnCanvas dpr load canvas groups isPreview error)))
               \<and> (transform (state c),
                    DrawImage (resolvedUrl g) lastX cursorY cellWidth cellHeight)
                   \<in> set (painted (fst (drawOnCanvas dpr load canvas groups isPreview error)))))"
proof -
  let ?c0 = "content_canvas dpr canvas isPreview"
  let ?T = "drawTitle g (y + marginTop g * DPI, c)"
  let ?y' = "cursorY + verticalCount g * cellHeight"
  let ?cells = "concat (map (\<lambda>row. map (\<lambda>col.
                  (transform (state c),
                   DrawImage (resolvedUrl g) (startX + of_nat col * cellWidth)
                     (cursorY + of_nat row * cellHeight) cellWidth cellHeight))
                 (loop_range (horizontalCount g))) (loop_range (verticalCount g)))"
  let ?c' = "(snd ?T)\<lparr>painted := painted (snd ?T) @ ?cells\<rparr>"
  let ?first = "(transform (state c),
                 DrawImage (resolvedUrl g) startX cursorY cellWidth cellHeight)"
  let ?last = "(transform (state c),
                 DrawImage (resolvedUrl g) lastX cursorY cellWidth cellHeight)"
  have some: "filter contributes groups \<noteq> []"
    using assms(3) by simp
  have "g \<in> set (filter contributes groups)"
    using assms(3) by simp
  then have counts: "0 < horizontalCount g" "0 < verticalCount g"
    by (simp_all add: contributes_def)
  have left: "startX < 0"
    using assms(9) by (simp add: startX_def)
  have width: "0 \<le> cellWidth"
    using cellSize_nonneg [OF assms(6)] by simp
  have "horizontalCount g * cellWidth \<le> (of_nat (nat \<lceil>horizontalCount g\<rceil> - 1) + 1) * cellWidth"
    using loop_range_last [OF counts(1)] width by (intro mult_right_mono) simp_all
  then have "startX + horizontalCount g * cellWidth \<le> lastX + cellWidth"
    by (simp add: lastX_def algebra_simps)
  moreover have "A4_WIDTH_PX < startX + horizontalCount g * cellWidth"
    using assms(9) by (simp add: startX_def field_simps)
  ultimately have right: "A4_WIDTH_PX < lastX + cellWidth"
    by simp
  have turn: "drawGroup load g (y, c) = Inr (?y', ?c')"
    unfolding cursorY_def startX_def
    by (rule drawGroup_drawn [of load g, OF assms(5) assms(6) assms(7) assms(8)
          assms(10) [unfolded cursorY_def]])
  have row0: "0 \<in> set (loop_range (verticalCount g))"
    using counts(2) by (rule loop_range_first)
  have col0: "0 \<in> set (loop_range (horizontalCount g))"
    using counts(1) by (rule loop_range_first)
  have colN: "nat \<lceil>horizontalCount g\<rceil> - 1 \<in> set (loop_range (horizontalCount g))"
    using loop_range_last [OF counts(1)] by simp
  have first: "?first \<in> set ?cells"
    using cell_member [OF row0 col0, where f = "\<lambda>row col. (transform (state c),
                   DrawImage (resolvedUrl g) (startX + of_nat col * cellWidth)
                     (cursorY + of_nat row * cellHeight) cellWidth cellHeight)"]
    by simp
  have last: "?last \<in> set ?cells"
    using cell_member [OF row0 colN, where f = "\<lambda>row col. (transform (state c),
                   DrawImage (resolvedUrl g) (startX + of_nat col * cellWidth)
                     (cursorY + of_nat row * cellHeight) cellWidth cellHeight)"]
    by (simp add: lastX_def)
  have after: "snd (drawOnCanvas dpr load canvas groups isPreview error) = None
               \<and> ?first \<in> set (painted (fst (drawOnCanvas dpr load canvas groups isPreview error)))
               \<and> ?last \<in> set (painted (fst (drawOnCanvas dpr load canvas groups isPreview error)))"
    if rest: "drawGroups load rest (?y', ?c') = Inr final" for final
  proof -
    have content: "drawContent load (filter contributes groups) ?c0 = Inr final"
      by (simp add: drawContent_def assms(3) drawGroups_append assms(4) turn rest)
    from drawGroups_keeps_painted [of load rest "(?y', ?c')"] obtain ps where
      "painted (snd final) = painted ?c' @ ps"
      using rest by (auto simp: canvas_of_def)
    then have "?first \<in> set (painted (snd final))" "?last \<in> set (painted (snd final))"
      using first last by simp_all
    then show ?thesis
      by (simp add: drawOnCanvas_drawn [OF assms(2) some content] restore_fields)
  qed
  have here: "?first \<in> set (painted ?c')" "?last \<in> set (painted ?c')"
    using first last by simp_all
  have later: "\<forall>final. drawGroups load rest (?y', ?c') = Inr final \<longrightarrow>
                 snd (drawOnCanvas dpr load canvas groups isPreview error) = None
               \<and> ?first \<in> set (painted (fst (drawOnCanvas dpr load canvas groups isPreview error)))
               \<and> ?last \<in> set (painted (fst (drawOnCanvas dpr load canvas groups isPreview error)))"
    using after by blast
  have "drawGroup load g (y, c) = Inr (?y', ?c')
            \<and> ?first \<in> set (painted ?c') \<and> ?last \<in> set (painted ?c')
            \<and> (\<forall>final. drawGroups load rest (?y', ?c') = Inr final \<longrightarrow>
                 snd (drawOnCanvas dpr load canvas groups isPreview error) = None
               \<and> ?first \<in> set (painted (fst (drawOnCanvas dpr load canvas groups isPreview error)))
               \<and> ?last \<in> set (painted (fst (drawOnCanvas dpr load canvas groups isPreview error))))"
    using turn here later by (intro conjI)
  then have "\<exists>c'. drawGroup load g (y, c) = Inr (?y', c')
            \<and> ?first \<in> set (painted c') \<and> ?last \<in> set (painted c')
            \<and> (\<forall>final. drawGroups load rest (?y', c') = Inr final \<longrightarrow>
                 snd (drawOnCanvas dpr load canvas groups isPreview error) = None
               \<and> ?first \<in> set (painted (fst (drawOnCanvas dpr load canvas groups isPreview error)))
               \<and> ?last \<in> set (painted (fst (drawOnCanvas dpr load canvas groups isPreview error))))"
    by (rule exI [where x = ?c'])
  with left right show ?thesis
    by (intro conjI)
qed

theorem no_horizontal_check_witness:
  "snd (handleGenerateAndDownload 1 sample_loader [sample_group\<lparr>horizontalCount := 30\<rparr>]) = None
   \<and> ((1, 1), DrawImage ''https://img.test/1.png'' (- 519 / 2) 0 100 50)
        \<in> set (painted (fst (handleGenerateAndDownload 1 sample_loader
                    [sample_group\<lparr>horizontalCount := 30\<rparr>])))
   \<and> ((1, 1), DrawImage ''https://img.test/1.png'' (- 519 / 2 + 2900) 0 100 50)
        \<in> set (painted (fst (handleGenerateAndDownload 1 sample_loader
                    [sample_group\<lparr>horizontalCount := 30\<rparr>])))
   \<and> (- 519 / 2 :: number) < 0 \<and> A4_WIDTH_PX < - 519 / 2 + 2900 + 100"
proof -
  let ?c0 = "content_canvas 1 createCanvas False"
  let ?wide = "sample_group\<lparr>horizontalCount := 30\<rparr>"
  have with_ctx: "has_context createCanvas"
    by (simp add: createCanvas_def)
  have start: "drawGroups sample_loader [] (0, ?c0) = Inr (0, ?c0)"
    by simp
  have nz: "(100 :: number) \<noteq> 0" "(50 :: number) \<noteq> 0"
    by simp_all
  have seq: "filter contributes [?wide] = [] @ ?wide # []"
    by (simp add: contributes_def sample_group_def)
  have load: "sample_loader (resolvedUrl ?wide) = Some (100, 50)"
    by (simp add: sample_loader_def)
  have size: "cellSize (resolvedUrl ?wide) (100, 50) = (100, 50)"
    by code_simp
  have wide: "A4_WIDTH_PX < horizontalCount ?wide * 100"
    by (simp add: page_px)
  have cursor: "fst (drawTitle ?wide (0 + marginTop ?wide * DPI, ?c0)) = 0"
    by (simp add: drawTitle_def hasTitle_def sample_group_def)
  have fits: "fst (drawTitle ?wide (0 + marginTop ?wide * DPI, ?c0)) + verticalCount ?wide * 50
                \<le> A4_HEIGHT_PX"
    unfolding cursor by (simp add: sample_group_def page_px)
  have t: "transform (state ?c0) = (1, 1)"
    by (simp add: content_canvas_def background_def Let_def fillRect_fields
          set_fillStyle_fields set_size_fields default_state_def)
  have url: "resolvedUrl ?wide = ''https://img.test/1.png''"
    by (simp add: sample_group_def)
  have left: "(A4_WIDTH_PX - horizontalCount ?wide * 100) / 2 = - 519 / 2"
    by (simp add: page_px)
  have last: "of_nat (nat \<lceil>horizontalCount ?wide\<rceil> - 1) * (100 :: number) = 2900"
    by simp
  note w = no_horizontal_check [of createCanvas "[?wide]" "[]" ?wide "[]" sample_loader 1 False
        0 ?c0 "(100, 50)" 100 50 None,
        OF with_ctx seq start load size nz wide fits,
        unfolded cursor t url left last]
  then obtain c' where
    "\<forall>final. drawGroups sample_loader [] (0 + verticalCount ?wide * 50, c') = Inr final \<longrightarrow>
        snd (drawOnCanvas 1 sample_loader createCanvas [?wide] False None) = None
      \<and> ((1, 1), DrawImage ''https://img.test/1.png'' (- 519 / 2) 0 100 50)
          \<in> set (painted (fst (drawOnCanvas 1 sample_loader createCanvas [?wide] False None)))
      \<and> ((1, 1), DrawImage ''https://img.test/1.png'' (- 519 / 2 + 2900) 0 100 50)
          \<in> set (painted (fst (drawOnCanvas 1 sample_loader createCanvas [?wide] False None)))"
    by blast
  then have "snd (drawOnCanvas 1 sample_loader createCanvas [?wide] False None) = None
      \<and> ((1, 1), DrawImage ''https://img.test/1.png'' (- 519 / 2) 0 100 50)
          \<in> set (painted (fst (drawOnCanvas 1 sample_loader createCanvas [?wide] False None)))
      \<and> ((1, 1), DrawImage ''https://img.test/1.png'' (- 519 / 2 + 2900) 0 100 50)
          \<in> set (painted (fst (drawOnCanvas 1 sample_loader createCanvas [?wide] False None)))"
    by simp
  then show ?thesis
    by (simp add: handleGenerateAndDownload_def page_px)
qed

section \<open>The red overlay in a preview\<close>

text \<open>
  C6. In an export the overlay of a failed pass covers the whole canvas (lemma
  \<open>export_overlay_covers\<close>). In a preview it does not: the error is thrown between
  \<^verbatim>\<open>ctx.save()\<close>, \<^verbatim>\<open>ctx.scale(scaleToFit, scaleToFit)\<close> and \<^verbatim>\<open>ctx.restore()\<close>, so the
  overlay is painted while the scaling to fit is still in force (lemma
  \<open>thrown_overlay\<close>). Here a preview canvas of 600 by 848 pixels, with a device pixel
  ratio of 1, shows one valid group whose image fails to load. The message is reported,
  and the overlay, the last entry painted, reaches only to \<open>848 / 3507 * 600\<close>, about 145,
  pixels across and \<open>848 / 3507 * 848\<close>, about 205, pixels down.
\<close>

theorem preview_overlay_partial:
  "drawOnCanvas 1 failing_loader preview_canvas [sample_group] True None
     = (preview_canvas\<lparr>width := 600, height := 848,
          state := default_state\<lparr>transform := (848 / 3507, 848 / 3507),
                     fillStyle := ''rgba(255, 0, 0, 0.1)''\<rparr>,
          saved := [default_state\<lparr>fillStyle := ''white''\<rparr>],
          painted := [((1, 1), FillRect ''white'' 0 0 600 848),
                      ((848 / 3507, 848 / 3507),
                       FillRect ''rgba(255, 0, 0, 0.1)'' 0 0 600 848)]\<rparr>,
        Some ''Failed to load: https://img.test/1.png...'')
   \<and> device_rect ((848 / 3507, 848 / 3507), FillRect ''rgba(255, 0, 0, 0.1)'' 0 0 600 848)
       = Some (0, 0, 848 / 3507 * 600, 848 / 3507 * 848)
   \<and> \<not> covers_canvas (fst (drawOnCanvas 1 failing_loader preview_canvas [sample_group] True None))
         (last (painted (fst (drawOnCanvas 1 failing_loader preview_canvas [sample_group] True
            None))))"
proof -
  have pass: "drawOnCanvas 1 failing_loader preview_canvas [sample_group] True None
     = (preview_canvas\<lparr>width := 600, height := 848,
          state := default_state\<lparr>transform := (848 / 3507, 848 / 3507),
                     fillStyle := ''rgba(255, 0, 0, 0.1)''\<rparr>,
          saved := [default_state\<lparr>fillStyle := ''white''\<rparr>],
          painted := [((1, 1), FillRect ''white'' 0 0 600 848),
                      ((848 / 3507, 848 / 3507),
                       FillRect ''rgba(255, 0, 0, 0.1)'' 0 0 600 848)]\<rparr>,
        Some ''Failed to load: https://img.test/1.png...'')"
    by (simp add: drawOnCanvas_def Let_def preview_canvas_def createCanvas_def
        set_width_def set_height_def scale_def set_fillStyle_def fillRect_def save_def
        to_unsigned_long_def default_state_def contributes_def sample_group_def
        drawContent_def drawGroup_def drawTitle_def hasTitle_def failing_loader_def
        page_px substring0_def)
  show ?thesis
    unfolding pass by (simp add: covers_canvas_def)
qed

section \<open>A pass with nothing to draw\<close>

text \<open>
  C7. A pass with no group to draw fills the canvas white and shows no new error; an
  export of no group gives a white canvas of exactly 2481 by 3507 pixels and no error
  (lemma \<open>export_of_nothing\<close>). But the pass returns at line 122, before the
  \<^verbatim>\<open>setError(null)\<close> of line 195 (lemma \<open>drawOnCanvas_nothing_to_draw\<close>), so it leaves the
  message of an earlier failure in place instead of clearing it. Here a
  preview of one group of 5 by 100 cells overflows the page; the vertical count is then
  set to 0, so that no group is drawn, and the next pass, on the same canvas, ends with a
  white canvas and the overflow message still shown. The same happens for the empty list
  of groups.
\<close>

theorem stale_error_kept:
  "drawOnCanvas 1 sample_loader preview_canvas [sample_group\<lparr>verticalCount := 100\<rparr>] True None
     = (preview_canvas\<lparr>width := 600, height := 848,
          state := default_state\<lparr>transform := (848 / 3507, 848 / 3507),
                     fillStyle := ''rgba(255, 0, 0, 0.1)''\<rparr>,
          saved := [default_state\<lparr>fillStyle := ''white''\<rparr>],
          painted := [((1, 1), FillRect ''white'' 0 0 600 848),
                      ((848 / 3507, 848 / 3507),
                       FillRect ''rgba(255, 0, 0, 0.1)'' 0 0 600 848)]\<rparr>,
        Some ''Content overflows A4 page. Reduce counts or adjust margins.'')
   \<and> filter contributes [sample_group\<lparr>verticalCount := 0\<rparr>] = []
   \<and> drawOnCanvas 1 sample_loader
        (fst (drawOnCanvas 1 sample_loader preview_canvas
                [sample_group\<lparr>verticalCount := 100\<rparr>] True None))
        [sample_group\<lparr>verticalCount := 0\<rparr>] True
        (snd (drawOnCanvas 1 sample_loader preview_canvas
                [sample_group\<lparr>verticalCount := 100\<rparr>] True None))
     = (preview_canvas\<lparr>width := 600, height := 848,
          state := default_state\<lparr>fillStyle := ''white''\<rparr>,
          saved := [],
          painted := [((1, 1), FillRect ''white'' 0 0 600 848)]\<rparr>,
        Some ''Content overflows A4 page. Reduce counts or adjust margins.'')
   \<and> drawOnCanvas 1 sample_loader preview_canvas [] True
        (Some ''Content overflows A4 page. Reduce counts or adjust margins.'')
     = (preview_canvas\<lparr>width := 600, height := 848,
          state := default_state\<lparr>fillStyle := ''white''\<rparr>,
          painted := [((1, 1), FillRect ''white'' 0 0 600 848)]\<rparr>,
        Some ''Content overflows A4 page. Reduce counts or adjust margins.'')"
proof -
  have first: "drawOnCanvas 1 sample_loader preview_canvas
      [sample_group\<lparr>verticalCount := 100\<rparr>] True None
     = (preview_canvas\<lparr>width := 600, height := 848,
          state := default_state\<lparr>transform := (848 / 3507, 848 / 3507),
                     fillStyle := ''rgba(255, 0, 0, 0.1)''\<rparr>,
          saved := [default_state\<lparr>fillStyle := ''white''\<rparr>],
          painted := [((1, 1), FillRect ''white'' 0 0 600 848),
                      ((848 / 3507, 848 / 3507),
                       FillRect ''rgba(255, 0, 0, 0.1)'' 0 0 600 848)]\<rparr>,
        Some ''Content overflows A4 page. Reduce counts or adjust margins.'')"
    by (simp add: drawOnCanvas_def Let_def preview_canvas_def createCanvas_def
        set_width_def set_height_def scale_def set_fillStyle_def fillRect_def save_def
        to_unsigned_long_def default_state_def contributes_def sample_group_def
        drawContent_def drawGroup_def drawTitle_def hasTitle_def sample_loader_def
        cellSize_def endsWith_def toLowerCase_def lower_char_def page_px)
  have none: "filter contributes [sample_group\<lparr>verticalCount := 0\<rparr>] = []"
    by (simp add: contributes_def)
  have second: "drawOnCanvas 1 sample_loader
        (preview_canvas\<lparr>width := 600, height := 848,
          state := default_state\<lparr>transform := (848 / 3507, 848 / 3507),
                     fillStyle := ''rgba(255, 0, 0, 0.1)''\<rparr>,
          saved := [default_state\<lparr>fillStyle := ''white''\<rparr>],
          painted := [((1, 1), FillRect ''white'' 0 0 600 848),
                      ((848 / 3507, 848 / 3507),
                       FillRect ''rgba(255, 0, 0, 0.1)'' 0 0 600 848)]\<rparr>)
        [sample_group\<lparr>verticalCount := 0\<rparr>] True
        (Some ''Content overflows A4 page. Reduce counts or adjust margins.'')
     = (preview_canvas\<lparr>width := 600, height := 848,
          state := default_state\<lparr>fillStyle := ''white''\<rparr>,
          saved := [],
          painted := [((1, 1), FillRect ''white'' 0 0 600 848)]\<rparr>,
        Some ''Content overflows A4 page. Reduce counts or adjust margins.'')"
    by (simp add: drawOnCanvas_def Let_def preview_canvas_def createCanvas_def
        set_width_def set_height_def scale_def set_fillStyle_def fillRect_def
        to_unsigned_long_def default_state_def contributes_def)
  have empty: "drawOnCanvas 1 sample_loader preview_canvas [] True
        (Some ''Content overflows A4 page. Reduce counts or adjust margins.'')
     = (preview_canvas\<lparr>width := 600, height := 848,
          state := default_state\<lparr>fillStyle := ''white''\<rparr>,
          painted := [((1, 1), FillRect ''white'' 0 0 600 848)]\<rparr>,
        Some ''Content overflows A4 page. Reduce counts or adjust margins.'')"
    by (simp add: drawOnCanvas_def Let_def preview_canvas_def createCanvas_def
        set_width_def set_height_def scale_def set_fillStyle_def fillRect_def
        to_unsigned_long_def default_state_def)
  show ?thesis
    unfolding first fst_conv snd_conv using none second empty by (intro conjI) simp_all
qed

section \<open>Two validations of one group under way\<close>

text \<open>
  C5, as the claim states it, fails. The identifier of the first group is set to \<open>A\<close>
  and its validation starts; the identifier is then set to \<open>B\<close> and its validation
  starts while the first is still under way. The second validation completes, then the
  first. The group ends with the identifier \<open>B\<close>, the status \<open>valid\<close> and the URL that
  was resolved for \<open>A\<close>, not the one of \<open>B\<close>.
\<close>

theorem stale_result_counterexample:
  "run sample_network (initial_app 1)
     [Change 1 (InputValue ''A''), ValidationTimer, Change 1 (InputValue ''B''), ValidationTimer]
     = \<lparr>barcodeGroups =
          [\<lparr>id_g = 1, inputValue = ''B'', resolvedUrl = [], validationStatus = checking,
            title = [], horizontalCount = 5, verticalCount = 10, marginTop = 0\<rparr>],
        in_flight = [(1, ''A''), (1, ''B'')]\<rparr>
   \<and> run sample_network (initial_app 1)
     [Change 1 (InputValue ''A''), ValidationTimer, Change 1 (InputValue ''B''), ValidationTimer,
      Completion 1, Completion 0]
     = \<lparr>barcodeGroups =
          [\<lparr>id_g = 1, inputValue = ''B'', resolvedUrl = ''https://img.test/A.png'',
            validationStatus = valid,
            title = [], horizontalCount = 5, verticalCount = 10, marginTop = 0\<rparr>],
        in_flight = []\<rparr>
   \<and> resolve sample_network ''B'' = Some ''https://img.test/B.png''"
  by (simp add: run_def initial_app_def handleGroupChange_def start_validation_def
        validate_start_def validate_finish_def set_checking_def set_validation_def
        resolve_A resolve_B Let_def)

text \<open>
  C5, amended. The completion of a validation that was started for the group \<open>i\<close> with
  the value \<open>v\<close> writes its outcome, \<open>valid\<close> with the URL or \<open>invalid\<close> with the empty
  URL, into every group whose \<^verbatim>\<open>id\<close> is \<open>i\<close>, whatever identifier the group holds by then,
  and changes nothing else. An edit of the identifier resets the group to \<open>idle\<close> with
  an empty URL and leaves the validations under way as they are. So, of two validations
  of one group, the one that completes last decides the status and the URL.
\<close>

theorem completion_writes_by_id:
  assumes "k < length (in_flight a)" and "in_flight a ! k = (i, v)"
  shows "barcodeGroups (step net a (Completion k))
           = map (\<lambda>g. if id_g g = i
                       then g\<lparr>validationStatus :=
                                (case resolve net v of Some u \<Rightarrow> valid | None \<Rightarrow> invalid),
                              resolvedUrl :=
                                (case resolve net v of Some u \<Rightarrow> u | None \<Rightarrow> [])\<rparr>
                       else g) (barcodeGroups a)
       \<and> in_flight (step net a (Change j e)) = in_flight a
       \<and> barcodeGroups (step net a (Change j (InputValue w)))
           = map (\<lambda>g. if id_g g = j
                       then g\<lparr>inputValue := w, resolvedUrl := [], validationStatus := idle\<rparr>
                       else g) (barcodeGroups a)"
  using assms
  by (simp add: validate_finish_def set_validation_def handleGroupChange_def
        split: option.splits)

theorem completion_writes_by_id_witness:
  "barcodeGroups
     (step sample_network
        \<lparr>barcodeGroups =
           [\<lparr>id_g = 1, inputValue = ''B'', resolvedUrl = [], validationStatus = checking,
             title = [], horizontalCount = 5, verticalCount = 10, marginTop = 0\<rparr>],
         in_flight = [(1, ''A''), (1, ''B'')]\<rparr>
        (Completion 0))
     = [\<lparr>id_g = 1, inputValue = ''B'', resolvedUrl = ''https://img.test/A.png'',
         validationStatus = valid,
         title = [], horizontalCount = 5, verticalCount = 10, marginTop = 0\<rparr>]"
  using completion_writes_by_id [of 0
      "\<lparr>barcodeGroups =
           [\<lparr>id_g = 1, inputValue = ''B'', resolvedUrl = [], validationStatus = checking,
             title = [], horizontalCount = 5, verticalCount = 10, marginTop = 0\<rparr>],
         in_flight = [(1, ''A''), (1, ''B'')]\<rparr>" 1 "''A''" sample_network]
  by (simp add: resolve_A)

end
